theory Spec2Isabelle
  imports Main
begin

section \<open>MockTransaction: the staging buffer of a mock Firestore transaction\<close>

text \<open>
  A shallow embedding of \<^verbatim>\<open>src/firestore/MockTransaction.ts\<close>. The class keeps two plain
  JavaScript objects keyed by document path (\<^verbatim>\<open>transactionData\<close>,
  \<^verbatim>\<open>transactionOperation\<close>) and the flag \<^verbatim>\<open>modified\<close>; \<^verbatim>\<open>get\<close>, \<^verbatim>\<open>set\<close>,
  \<^verbatim>\<open>update\<close> and \<^verbatim>\<open>delete\<close> read and write them, \<^verbatim>\<open>commit\<close> walks them and calls
  the document store.
\<close>

subsection \<open>Plain objects used as string-keyed tables\<close>

text \<open>
  The three tables of the class (\<^verbatim>\<open>transactionData\<close>, \<^verbatim>\<open>transactionOperation\<close>, and
  \<^verbatim>\<open>collectionChanges\<close> inside \<^verbatim>\<open>commit\<close>) are plain objects created as \<^verbatim>\<open>{}\<close>. A
  plain object is the list of its own properties in creation order; behind it stands
  \<^verbatim>\<open>Object.prototype\<close>.
\<close>

type_synonym 'a object = "(string \<times> 'a) list"

text \<open>The property names every plain object inherits from \<^verbatim>\<open>Object.prototype\<close>.\<close>

definition Object_prototype_keys :: "string list" where
  "Object_prototype_keys =
     [''constructor'', ''__defineGetter__'', ''__defineSetter__'', ''hasOwnProperty'',
      ''__lookupGetter__'', ''__lookupSetter__'', ''isPrototypeOf'',
      ''propertyIsEnumerable'', ''toString'', ''valueOf'', ''__proto__'',
      ''toLocaleString'']"

text \<open>
  A read \<^verbatim>\<open>o[k]\<close> finds an own property, or else the property of that name inherited
  from \<^verbatim>\<open>Object.prototype\<close> (a function, or for \<^verbatim>\<open>__proto__\<close> the prototype itself), or
  else nothing, and is \<^verbatim>\<open>undefined\<close>.
\<close>

datatype 'a property = Own 'a | Inherited | Missing

definition lookup :: "'a object \<Rightarrow> string \<Rightarrow> 'a property" where
  "lookup obj k =
     (case map_of obj k of
        Some v \<Rightarrow> Own v
      | None \<Rightarrow> if k \<in> set Object_prototype_keys then Inherited else Missing)"

text \<open>Writing an own property: an existing key keeps its position, a new key is appended.\<close>

primrec define_own :: "string \<Rightarrow> 'a \<Rightarrow> 'a object \<Rightarrow> 'a object" where
  "define_own k v [] = [(k, v)]"
| "define_own k v (p # ps) = (if fst p = k then (k, v) # ps else p # define_own k v ps)"

text \<open>
  An assignment \<^verbatim>\<open>o[k] = v\<close> writes an own property, but for one key: the inherited
  \<^verbatim>\<open>__proto__\<close> is an accessor, and an assignment under that key, where it is not an own
  key, goes to its setter and makes no own property. The setter ignores a value that
  is not an object; given an object it makes it the prototype of \<open>o\<close>, which the list
  of own properties does not record.
\<close>

definition assign :: "string \<Rightarrow> 'a \<Rightarrow> 'a object \<Rightarrow> 'a object" where
  "assign k v obj =
     (if k = ''__proto__'' \<and> k \<notin> set (map fst obj) then obj else define_own k v obj)"

text \<open>
  A document path names a document in a collection, \<^verbatim>\<open>collection/id\<close>: it contains a
  slash. No property of \<^verbatim>\<open>Object.prototype\<close> has a slash in its name, so a read under a
  document path finds an own property or nothing, and an assignment under it writes an
  own property.
\<close>

definition document_path :: "string \<Rightarrow> bool" where
  "document_path p = (CHR ''/'' \<in> set p)"

text \<open>
  \<^verbatim>\<open>for (const k in o)\<close> visits the own keys that are array indices (canonical decimal
  numerals below \<open>2^32 - 1\<close>) first, in ascending numeric order, and then the other keys
  in creation order. Nothing inherited from \<^verbatim>\<open>Object.prototype\<close> is enumerable.
\<close>

definition is_digit :: "char \<Rightarrow> bool" where
  "is_digit c = (48 \<le> (of_char c :: nat) \<and> (of_char c :: nat) \<le> 57)"

definition decimal :: "string \<Rightarrow> int" where
  "decimal s = foldl (\<lambda>n c. 10 * n + (of_char c - 48)) 0 s"

definition is_array_index :: "string \<Rightarrow> bool" where
  "is_array_index s =
     (s \<noteq> [] \<and> list_all is_digit s \<and> (if hd s = CHR ''0'' then s = ''0'' else True) \<and>
      decimal s < 2 ^ 32 - 1)"

definition for_in :: "'a object \<Rightarrow> (string \<times> 'a) list" where
  "for_in obj =
     sort_key (\<lambda>p. decimal (fst p)) (filter (\<lambda>p. is_array_index (fst p)) obj) @
     filter (\<lambda>p. \<not> is_array_index (fst p)) obj"

subsection \<open>Data model\<close>

text \<open>
  Document data is an object of fields; only whole fields are read and copied here
  (\<^verbatim>\<open>{ ...docData, ...data }\<close>), so it is a map from field names to values of any
  type \<open>'v\<close>. \<open>None\<close> stands for \<^verbatim>\<open>undefined\<close> wherever a value may be absent. Every
  object is truthy, the empty one too.
\<close>

type_synonym 'v DocumentData = "string \<rightharpoonup> 'v"

datatype DocumentChangeType = Added | Modified | Removed

datatype error =
    MockFirebaseValidationError string
  | NotImplementedYet string
  | TypeError string
  | Error string

record SetOptions =
  merge :: "bool option"
  mergeFields :: "string list option"

text \<open>The second argument of \<^verbatim>\<open>update\<close>: \<^verbatim>\<open>UpdateData | string | FieldPath\<close>, or missing.\<close>

datatype 'v dataOrField =
    UpdateData "'v DocumentData"
  | FieldName string
  | FieldPath "string list"
  | Undefined

datatype js_type = T_object | T_string | T_undefined

fun typeof :: "'v dataOrField \<Rightarrow> js_type" where
  "typeof (UpdateData d) = T_object"
| "typeof (FieldName s) = T_string"
| "typeof (FieldPath segs) = T_object"
| "typeof Undefined = T_undefined"

text \<open>
  What a read of \<^verbatim>\<open>transactionData\<close> can yield, and so what the transaction hands on:
  \<^verbatim>\<open>undefined\<close>, a data object, or the property of \<^verbatim>\<open>Object.prototype\<close> of the given
  name. The last is truthy, and it has no enumerable property of its own to spread.
\<close>

datatype 'v any = Absent | Data "'v DocumentData" | Builtin string

definition truthy :: "'v any \<Rightarrow> bool" where
  "truthy x = (x \<noteq> Absent)"

text \<open>\<^verbatim>\<open>{ ...x }\<close>: the copy of a data object, the empty object for anything else.\<close>

definition spread :: "'v any \<Rightarrow> 'v DocumentData" where
  "spread x = (case x of Data d \<Rightarrow> d | Absent \<Rightarrow> Map.empty | Builtin k \<Rightarrow> Map.empty)"

text \<open>\<^verbatim>\<open>documentRef.data\<close> as a value.\<close>

definition value_of :: "'v DocumentData option \<Rightarrow> 'v any" where
  "value_of x = (case x of None \<Rightarrow> Absent | Some d \<Rightarrow> Data d)"

text \<open>
  What the transaction uses of a document reference: its path, its current data, and
  the two staging primitives. They belong to \<^verbatim>\<open>MockDocumentReference\<close> and are
  parameters here: functions that return document data, whatever data that is.
  \<^verbatim>\<open>set\<close> calls \<^verbatim>\<open>updateInTransaction\<close> with two arguments and \<^verbatim>\<open>update\<close> calls
  it with three, so its third argument is optional; \<^verbatim>\<open>update\<close> hands it what it read
  from \<^verbatim>\<open>transactionData\<close>, so its first argument is any value.
\<close>

record 'v MockDocumentReference =
  path :: string
  data :: "'v DocumentData option"
  updateInTransaction ::
    "'v any \<Rightarrow> 'v dataOrField \<Rightarrow> 'v list option \<Rightarrow> 'v DocumentData"
  setInTransaction ::
    "'v DocumentData \<Rightarrow> 'v DocumentData \<Rightarrow> SetOptions option \<Rightarrow> 'v DocumentData"

record 'v MockTransaction =
  transactionData :: "'v DocumentData option object"
  transactionOperation :: "DocumentChangeType object"
  modified :: bool

definition new_MockTransaction :: "'v MockTransaction" where
  "new_MockTransaction =
     \<lparr>transactionData = [], transactionOperation = [], modified = False\<rparr>"

text \<open>
  \<^verbatim>\<open>this.transactionData[path]\<close>: a missing key and a stored \<^verbatim>\<open>undefined\<close> read alike;
  a path that is no own key and names a property of \<^verbatim>\<open>Object.prototype\<close> reads that
  property.
\<close>

definition staged :: "'v MockTransaction \<Rightarrow> string \<Rightarrow> 'v any" where
  "staged t p =
     (case lookup (transactionData t) p of
        Own v \<Rightarrow> value_of v
      | Inherited \<Rightarrow> Builtin p
      | Missing \<Rightarrow> Absent)"

text \<open>
  The current data of a document inside a transaction: what is staged under its path
  when that is truthy, the data of the reference otherwise.
\<close>

definition current :: "'v MockTransaction \<Rightarrow> 'v MockDocumentReference \<Rightarrow> 'v any" where
  "current t r =
     (if truthy (staged t (path r)) then staged t (path r) else value_of (data r))"

text \<open>\<^verbatim>\<open>options && options.merge\<close>\<close>

definition merge_requested :: "SetOptions option \<Rightarrow> bool" where
  "merge_requested options =
     (case options of None \<Rightarrow> False | Some opts \<Rightarrow> merge opts = Some True)"

subsection \<open>The operations of a transaction\<close>

text \<open>
  Each operation takes the transaction and returns it as the call leaves it; an
  operation that can throw returns its outcome beside it, \<open>Inl\<close> the error thrown.
  \<^verbatim>\<open>return this\<close> is the returned transaction.
\<close>

definition get ::
  "'v MockTransaction \<Rightarrow> 'v MockDocumentReference \<Rightarrow>
   (error + 'v DocumentData option) \<times> 'v MockTransaction" where
  "get t documentRef =
     (if modified t
      then (Inl (MockFirebaseValidationError
                   ''Read operations can only be done before write operations.''), t)
      else (Inr (data documentRef), t))"

definition set_tx ::
  "'v MockTransaction \<Rightarrow> 'v MockDocumentReference \<Rightarrow> 'v DocumentData \<Rightarrow>
   SetOptions option \<Rightarrow> 'v MockTransaction" where
  "set_tx t documentRef dat options =
     (let t1 = t\<lparr>modified := True\<rparr>;
          p = path documentRef;
          docData = (if truthy (staged t1 p) then staged t1 p
                     else if truthy (value_of (data documentRef))
                          then Data (spread (value_of (data documentRef)))
                          else value_of (data documentRef));
          changeType = (if truthy docData then Modified else Added);
          t2 = (if merge_requested options
                then let docData' = spread docData ++ dat
                     in t1\<lparr>transactionData :=
                          assign p (Some (updateInTransaction documentRef (Data docData')
                                            (UpdateData dat) None))
                            (transactionData t1)\<rparr>
                else let docData' = dat
                     in t1\<lparr>transactionData :=
                          assign p (Some (setInTransaction documentRef docData' dat options))
                            (transactionData t1)\<rparr>)
      in t2\<lparr>transactionOperation := assign p changeType (transactionOperation t2)\<rparr>)"

definition update ::
  "'v MockTransaction \<Rightarrow> 'v MockDocumentReference \<Rightarrow> 'v dataOrField \<Rightarrow> 'v list \<Rightarrow>
   (error + unit) \<times> 'v MockTransaction" where
  "update t documentRef dataOrField moreFieldsAndValues =
     (let t1 = t\<lparr>modified := True\<rparr>
      in if typeof dataOrField = T_object
         then let p = path documentRef;
                  dat = (if truthy (staged t1 p) then staged t1 p
                         else Data (spread (value_of (data documentRef))));
                  t2 = t1\<lparr>transactionData :=
                         assign p (Some (updateInTransaction documentRef dat dataOrField
                                           (Some moreFieldsAndValues)))
                           (transactionData t1)\<rparr>
              in (Inr (), t2\<lparr>transactionOperation :=
                               assign p Modified (transactionOperation t2)\<rparr>)
         else (Inl (NotImplementedYet ''MockTransaction.get''), t1))"

definition delete ::
  "'v MockTransaction \<Rightarrow> 'v MockDocumentReference \<Rightarrow> 'v MockTransaction" where
  "delete t documentRef =
     (let t1 = t\<lparr>modified := True\<rparr>;
          p = path documentRef;
          t2 = t1\<lparr>transactionData := assign p None (transactionData t1)\<rparr>
      in t2\<lparr>transactionOperation := assign p Removed (transactionOperation t2)\<rparr>)"

subsection \<open>Sequences of calls\<close>

datatype 'v call =
    Get "'v MockDocumentReference"
  | Set "'v MockDocumentReference" "'v DocumentData" "SetOptions option"
  | Update "'v MockDocumentReference" "'v dataOrField" "'v list"
  | Delete "'v MockDocumentReference"

text \<open>The transaction after a call, whether the call returned or threw.\<close>

fun exec :: "'v MockTransaction \<Rightarrow> 'v call \<Rightarrow> 'v MockTransaction" where
  "exec t (Get r) = snd (get t r)"
| "exec t (Set r d options) = set_tx t r d options"
| "exec t (Update r a mfv) = snd (update t r a mfv)"
| "exec t (Delete r) = delete t r"

definition execs :: "'v MockTransaction \<Rightarrow> 'v call list \<Rightarrow> 'v MockTransaction" where
  "execs t cs = foldl exec t cs"

fun is_write :: "'v call \<Rightarrow> bool" where
  "is_write (Get r) = False"
| "is_write (Set r d options) = True"
| "is_write (Update r a mfv) = True"
| "is_write (Delete r) = True"

fun stages :: "'v call \<Rightarrow> bool" where
  "stages (Get r) = False"
| "stages (Set r d options) = True"
| "stages (Update r a mfv) = (typeof a = T_object)"
| "stages (Delete r) = True"

fun ref_of :: "'v call \<Rightarrow> 'v MockDocumentReference" where
  "ref_of (Get r) = r"
| "ref_of (Set r d options) = r"
| "ref_of (Update r a mfv) = r"
| "ref_of (Delete r) = r"

text \<open>A call on a reference whose path is a document path.\<close>

definition addressed :: "'v call \<Rightarrow> bool" where
  "addressed c = document_path (path (ref_of c))"

text \<open>No key is staged twice: an assignment to a staged path replaces its entry.\<close>

definition wf_tx :: "'v MockTransaction \<Rightarrow> bool" where
  "wf_tx t =
     (distinct (map fst (transactionData t)) \<and> distinct (map fst (transactionOperation t)))"

definition read_error :: error where
  "read_error =
     MockFirebaseValidationError ''Read operations can only be done before write operations.''"

subsection \<open>The staging primitives of a document reference\<close>

text \<open>
  Modelled from the spec: \<^verbatim>\<open>MockDocumentReference.updateInTransaction\<close>, which is not
  part of the sources at hand. The spec lists it as
  \<^verbatim>\<open>stageAsUpdate(baseData, partialPayload, extraPairs) -> mergedData\<close>: the base data
  with the partial payload merged over it. The spec says nothing of a payload that is
  not an object; the base is returned for it.
\<close>

definition stageAsUpdate ::
  "'v any \<Rightarrow> 'v dataOrField \<Rightarrow> 'v list option \<Rightarrow> 'v DocumentData" where
  "stageAsUpdate baseData partialPayload extraPairs =
     (case partialPayload of
        UpdateData d \<Rightarrow> spread baseData ++ d
      | _ \<Rightarrow> spread baseData)"

text \<open>
  Modelled from the spec: \<^verbatim>\<open>MockDocumentReference.setInTransaction\<close>, which is not part
  of the sources at hand. The spec lists it as
  \<^verbatim>\<open>stageAsSet(baseData, newPayload, options) -> resultData\<close> and says of a set without
  merge that the staged value is a copy of the new payload, the prior data discarded.
\<close>

definition stageAsSet ::
  "'v DocumentData \<Rightarrow> 'v DocumentData \<Rightarrow> SetOptions option \<Rightarrow> 'v DocumentData" where
  "stageAsSet baseData newPayload options =
     (if merge_requested options then baseData ++ newPayload else newPayload)"

text \<open>A document reference with these primitives.\<close>

definition reference :: "string \<Rightarrow> 'v DocumentData option \<Rightarrow> 'v MockDocumentReference" where
  "reference p d =
     \<lparr>path = p, data = d, updateInTransaction = stageAsUpdate, setInTransaction = stageAsSet\<rparr>"

subsection \<open>The document store as commit sees it\<close>

text \<open>
  \<^verbatim>\<open>commit\<close> calls the store (\<^verbatim>\<open>firestore.doc\<close>, \<^verbatim>\<open>firestore.collection\<close>), the document
  it resolves (\<^verbatim>\<open>commitChange\<close>), the reference inside each change it gets back
  (\<^verbatim>\<open>doc.ref.fireDocumentChangeEvent\<close>) and the collection
  (\<^verbatim>\<open>fireBatchDocumentChange\<close>). None of them is part of the transaction: each is a
  function of an outside world \<open>'w\<close> that returns a value or throws, and leaves a new
  world. \<open>'d\<close> and \<open>'c\<close> are the document and collection handles of the store.
\<close>

text \<open>
  A change as \<^verbatim>\<open>commitChange\<close> returns it. \<open>doc_ref\<close> is its \<^verbatim>\<open>doc.ref\<close>, the only part
  of the snapshot \<^verbatim>\<open>doc\<close> that commit reads.
\<close>

record 'd MockDocumentChange =
  type :: DocumentChangeType
  doc_ref :: 'd
  oldIndex :: int
  newIndex :: int

record ('w, 'v, 'd, 'c) MockFirebaseFirestore =
  doc :: "string \<Rightarrow> 'w \<Rightarrow> (error + 'd) \<times> 'w"
  collection :: "string \<Rightarrow> 'w \<Rightarrow> (error + 'c) \<times> 'w"
  commitChange ::
    "'d \<Rightarrow> DocumentChangeType \<Rightarrow> 'v any \<Rightarrow> 'w \<Rightarrow>
     (error + 'd MockDocumentChange) \<times> 'w"
  fireDocumentChangeEvent ::
    "'d \<Rightarrow> DocumentChangeType \<Rightarrow> int \<Rightarrow> bool \<Rightarrow> 'w \<Rightarrow> (error + unit) \<times> 'w"
  fireBatchDocumentChange ::
    "'c \<Rightarrow> 'd MockDocumentChange list \<Rightarrow> 'w \<Rightarrow> (error + unit) \<times> 'w"

text \<open>
  The trace of a commit: every step that can throw, with its arguments and its outcome,
  in the order the steps are taken, and the call of \<^verbatim>\<open>rollback\<close>.
\<close>

datatype ('v, 'd, 'c) event =
    Doc string "error + 'd"
  | CommitChange 'd DocumentChangeType "'v any" "error + 'd MockDocumentChange"
  | Push string "error + unit"
  | FireDocumentChangeEvent 'd DocumentChangeType int bool "error + unit"
  | Collection string "error + 'c"
  | FireBatchDocumentChange 'c "'d MockDocumentChange list" "error + unit"
  | Rollback

definition raised :: "error + 'a \<Rightarrow> error option" where
  "raised r = (case r of Inl e \<Rightarrow> Some e | Inr x \<Rightarrow> None)"

fun thrown :: "('v, 'd, 'c) event \<Rightarrow> error option" where
  "thrown (Doc p r) = raised r"
| "thrown (CommitChange d operation v r) = raised r"
| "thrown (Push c r) = raised r"
| "thrown (FireDocumentChangeEvent d ty i b r) = raised r"
| "thrown (Collection c r) = raised r"
| "thrown (FireBatchDocumentChange c chs r) = raised r"
| "thrown Rollback = None"

type_synonym ('w, 'v, 'd, 'c) run = "'w \<times> ('v, 'd, 'c) event list"

text \<open>One step: run it in the current world and append it to the trace.\<close>

definition perform ::
  "('w \<Rightarrow> (error + 'a) \<times> 'w) \<Rightarrow> (error + 'a \<Rightarrow> ('v, 'd, 'c) event) \<Rightarrow>
   ('w, 'v, 'd, 'c) run \<Rightarrow> (error + 'a) \<times> ('w, 'v, 'd, 'c) run" where
  "perform f ev s = (case f (fst s) of (r, w') \<Rightarrow> (r, (w', snd s @ [ev r])))"

text \<open>Sequencing inside the \<^verbatim>\<open>try\<close> block: a throw skips what follows.\<close>

definition and_then ::
  "('s \<Rightarrow> (error + 'a) \<times> 's) \<Rightarrow> ('a \<Rightarrow> 's \<Rightarrow> (error + 'b) \<times> 's) \<Rightarrow>
   's \<Rightarrow> (error + 'b) \<times> 's" where
  "and_then m k s = (case m s of (Inl e, s') \<Rightarrow> (Inl e, s') | (Inr x, s') \<Rightarrow> k x s')"

text \<open>\<^verbatim>\<open>path.lastIndexOf('/')\<close> and \<^verbatim>\<open>path.substr(0, n)\<close>; a negative length gives \<^verbatim>\<open>""\<close>.\<close>

primrec lastIndexOf :: "string \<Rightarrow> char \<Rightarrow> int" where
  "lastIndexOf [] c = - 1"
| "lastIndexOf (x # xs) c =
     (if 0 \<le> lastIndexOf xs c then lastIndexOf xs c + 1 else if x = c then 0 else - 1)"

definition substr :: "string \<Rightarrow> int \<Rightarrow> int \<Rightarrow> string" where
  "substr s start len =
     (let n = int (length s);
          from = (if start < 0 then max 0 (n + start) else min start n)
      in take (nat (max 0 len)) (drop (nat from) s))"

definition collectionPath :: "string \<Rightarrow> string" where
  "collectionPath p = substr p 0 (lastIndexOf p CHR ''/'')"

text \<open>
  \<^verbatim>\<open>const changes = collectionChanges[collectionPath] || []; changes.push(documentChange);
  collectionChanges[collectionPath] = changes\<close>. \<^verbatim>\<open>collectionChanges\<close> is a plain object
  and a collection path need not contain a slash. Where the path is no own key but
  names an inherited property, the read yields that property (a function, or
  \<^verbatim>\<open>Object.prototype\<close> for \<^verbatim>\<open>__proto__\<close>), which is truthy and has no \<^verbatim>\<open>push\<close>:
  the call throws a \<^verbatim>\<open>TypeError\<close>.
\<close>

definition push :: "'a list object \<Rightarrow> string \<Rightarrow> 'a \<Rightarrow> error + 'a list object" where
  "push collectionChanges cp documentChange =
     (case lookup collectionChanges cp of
        Own changes \<Rightarrow> Inr (assign cp (changes @ [documentChange]) collectionChanges)
      | Inherited \<Rightarrow> Inl (TypeError ''changes.push is not a function'')
      | Missing \<Rightarrow> Inr (assign cp [documentChange] collectionChanges))"

subsection \<open>Commit and rollback\<close>

text \<open>The first loop of \<^verbatim>\<open>commit\<close>, over the entries of \<^verbatim>\<open>transactionOperation\<close>.\<close>

fun commit_changes ::
  "('w, 'v, 'd, 'c) MockFirebaseFirestore \<Rightarrow> 'v MockTransaction \<Rightarrow>
   (string \<times> DocumentChangeType) list \<Rightarrow> 'd MockDocumentChange list object \<Rightarrow>
   ('w, 'v, 'd, 'c) run \<Rightarrow>
   (error + 'd MockDocumentChange list object) \<times> ('w, 'v, 'd, 'c) run" where
  "commit_changes firestore t [] collectionChanges s = (Inr collectionChanges, s)"
| "commit_changes firestore t ((p, operation) # rest) collectionChanges s =
     and_then (perform (doc firestore p) (Doc p)) (\<lambda>d.
     and_then (perform (commitChange firestore d operation (staged t p))
                       (CommitChange d operation (staged t p))) (\<lambda>documentChange.
     and_then (perform (\<lambda>w. (push collectionChanges (collectionPath p) documentChange, w))
                       (\<lambda>r. Push (collectionPath p) (map_sum id (\<lambda>x. ()) r)))
       (commit_changes firestore t rest))) s"

text \<open>The inner loop of the second loop: one event per change, in array order.\<close>

fun fire_changes ::
  "('w, 'v, 'd, 'c) MockFirebaseFirestore \<Rightarrow> 'd MockDocumentChange list \<Rightarrow>
   ('w, 'v, 'd, 'c) run \<Rightarrow> (error + unit) \<times> ('w, 'v, 'd, 'c) run" where
  "fire_changes firestore [] s = (Inr (), s)"
| "fire_changes firestore (document # rest) s =
     and_then (perform (fireDocumentChangeEvent firestore (doc_ref document) (type document)
                          (oldIndex document) False)
                       (FireDocumentChangeEvent (doc_ref document) (type document)
                          (oldIndex document) False))
       (\<lambda>u. fire_changes firestore rest) s"

text \<open>The second loop, over the entries of \<^verbatim>\<open>collectionChanges\<close>.\<close>

fun notify_collections ::
  "('w, 'v, 'd, 'c) MockFirebaseFirestore \<Rightarrow> (string \<times> 'd MockDocumentChange list) list \<Rightarrow>
   ('w, 'v, 'd, 'c) run \<Rightarrow> (error + unit) \<times> ('w, 'v, 'd, 'c) run" where
  "notify_collections firestore [] s = (Inr (), s)"
| "notify_collections firestore ((collectionId, documentChanges) # rest) s =
     and_then (fire_changes firestore documentChanges) (\<lambda>u.
     and_then (perform (collection firestore collectionId) (Collection collectionId)) (\<lambda>c.
     and_then (perform (fireBatchDocumentChange firestore c documentChanges)
                       (FireBatchDocumentChange c documentChanges)) (\<lambda>u.
     notify_collections firestore rest))) s"

text \<open>The body of the \<^verbatim>\<open>try\<close> block.\<close>

definition commit_try ::
  "('w, 'v, 'd, 'c) MockFirebaseFirestore \<Rightarrow> 'v MockTransaction \<Rightarrow>
   ('w, 'v, 'd, 'c) run \<Rightarrow> (error + unit) \<times> ('w, 'v, 'd, 'c) run" where
  "commit_try firestore t s =
     and_then (commit_changes firestore t (for_in (transactionOperation t)) [])
       (\<lambda>collectionChanges. notify_collections firestore (for_in collectionChanges)) s"

text \<open>\<^verbatim>\<open>rollback\<close> writes a line to the console and nothing else; the trace records the call.\<close>

definition rollback :: "('w, 'v, 'd, 'c) run \<Rightarrow> ('w, 'v, 'd, 'c) run" where
  "rollback s = (fst s, snd s @ [Rollback])"

text \<open>
  \<^verbatim>\<open>commit\<close>: the \<^verbatim>\<open>try\<close> block, and \<^verbatim>\<open>catch (error) { this.rollback(); throw error; }\<close>.
  The result is how the returned promise settles: \<open>Inr ()\<close> resolved, \<open>Inl e\<close> rejected
  with \<open>e\<close>. The trace starts empty.
\<close>

definition commit ::
  "('w, 'v, 'd, 'c) MockFirebaseFirestore \<Rightarrow> 'v MockTransaction \<Rightarrow> 'w \<Rightarrow>
   (error + unit) \<times> ('w, 'v, 'd, 'c) run" where
  "commit firestore t w =
     (case commit_try firestore t (w, []) of
        (Inl e, s) \<Rightarrow> (Inl e, rollback s)
      | (Inr u, s) \<Rightarrow> (Inr (), s))"

subsection \<open>Reading a trace\<close>

text \<open>A trace in which nothing threw and nothing was rolled back.\<close>

definition clean :: "('v, 'd, 'c) event list \<Rightarrow> bool" where
  "clean tr = list_all (\<lambda>ev. thrown ev = None \<and> ev \<noteq> Rollback) tr"

text \<open>A trace whose last step threw \<open>e\<close>, after steps that all returned.\<close>

definition failed :: "error \<Rightarrow> ('v, 'd, 'c) event list \<Rightarrow> bool" where
  "failed e tr = (tr \<noteq> [] \<and> clean (butlast tr) \<and> thrown (last tr) = Some e)"

text \<open>A computation that extends a clean trace by steps that returned, or stops at a throw.\<close>

definition traced ::
  "(('w, 'v, 'd, 'c) run \<Rightarrow> (error + 'a) \<times> ('w, 'v, 'd, 'c) run) \<Rightarrow> bool" where
  "traced m =
     (\<forall>s. clean (snd s) \<longrightarrow>
        (case m s of (Inl e, s') \<Rightarrow> failed e (snd s') | (Inr x, s') \<Rightarrow> clean (snd s')))"

subsection \<open>Two stores to run commit against\<close>

definition change_of :: "string \<Rightarrow> DocumentChangeType \<Rightarrow> string MockDocumentChange" where
  "change_of d operation = \<lparr>type = operation, doc_ref = d, oldIndex = - 1, newIndex = 0\<rparr>"

text \<open>A store whose every call returns; handles are the paths themselves.\<close>

definition plain_store :: "(unit, 'v, string, string) MockFirebaseFirestore" where
  "plain_store =
     \<lparr>doc = (\<lambda>p w. (Inr p, w)),
      collection = (\<lambda>c w. (Inr c, w)),
      commitChange = (\<lambda>d operation v w. (Inr (change_of d operation), w)),
      fireDocumentChangeEvent = (\<lambda>d ty i b w. (Inr (), w)),
      fireBatchDocumentChange = (\<lambda>c chs w. (Inr (), w))\<rparr>"

text \<open>The same store, but the commit of one document throws.\<close>

definition failing_store :: "string \<Rightarrow> error \<Rightarrow> (unit, 'v, string, string) MockFirebaseFirestore" where
  "failing_store bad e =
     plain_store\<lparr>commitChange :=
       (\<lambda>d operation v w. if d = bad then (Inl e, w) else (Inr (change_of d operation), w))\<rparr>"

subsection \<open>The shape of the trace of a commit that succeeds\<close>

definition committed ::
  "'v MockTransaction \<Rightarrow> string \<Rightarrow> DocumentChangeType \<Rightarrow> 'd \<Rightarrow> 'd MockDocumentChange \<Rightarrow>
   ('v, 'd, 'c) event list" where
  "committed t p operation d ch =
     [Doc p (Inr d), CommitChange d operation (staged t p) (Inr ch),
      Push (collectionPath p) (Inr ())]"

definition fired :: "'d MockDocumentChange \<Rightarrow> ('v, 'd, 'c) event" where
  "fired ch = FireDocumentChangeEvent (doc_ref ch) (type ch) (oldIndex ch) False (Inr ())"

definition notified ::
  "'c \<Rightarrow> string \<Rightarrow> 'd MockDocumentChange list \<Rightarrow> ('v, 'd, 'c) event list" where
  "notified k c chs =
     map fired chs @ [Collection c (Inr k), FireBatchDocumentChange k chs (Inr ())]"

section \<open>Properties\<close>

subsection \<open>Assignments to a plain object\<close>

lemma map_of_define_own: "map_of (define_own k v al) = (map_of al)(k \<mapsto> v)"
  by (induction al) (auto simp: fun_eq_iff)

lemma keys_define_own:
  "map fst (define_own k v al) =
     (if k \<in> set (map fst al) then map fst al else map fst al @ [k])"
  by (induction al) auto

lemma count_key_define_own:
  "distinct (map fst al) \<Longrightarrow> length (filter (\<lambda>e. fst e = k) (define_own k v al)) = 1"
  by (induction al) (auto simp: filter_empty_conv rev_image_eqI)

lemma document_path_own:
  "document_path p \<Longrightarrow> p \<noteq> ''__proto__'' \<and> p \<notin> set Object_prototype_keys"
  by (auto simp: document_path_def Object_prototype_keys_def)

lemma assign_own: "k \<noteq> ''__proto__'' \<Longrightarrow> assign k v al = define_own k v al"
  by (simp add: assign_def)

lemma map_of_assign: "k \<noteq> ''__proto__'' \<Longrightarrow> map_of (assign k v al) = (map_of al)(k \<mapsto> v)"
  by (simp add: assign_own map_of_define_own)

lemma keys_assign:
  "k \<noteq> ''__proto__'' \<Longrightarrow>
     map fst (assign k v al) = (if k \<in> set (map fst al) then map fst al else map fst al @ [k])"
  by (simp add: assign_own keys_define_own)

lemma distinct_keys_assign: "distinct (map fst al) \<Longrightarrow> distinct (map fst (assign k v al))"
  by (simp add: assign_def keys_define_own)

lemma count_key_assign:
  "k \<noteq> ''__proto__'' \<Longrightarrow> distinct (map fst al) \<Longrightarrow>
     length (filter (\<lambda>e. fst e = k) (assign k v al)) = 1"
  by (simp add: assign_own count_key_define_own)

lemma lookup_document_path:
  "document_path p \<Longrightarrow>
     lookup obj p = (case map_of obj p of Some v \<Rightarrow> Own v | None \<Rightarrow> Missing)"
  by (simp add: lookup_def document_path_own)

lemma modified_exec: "modified t \<Longrightarrow> modified (exec t c)"
  by (cases c) (simp_all add: get_def set_tx_def update_def delete_def Let_def)

lemma modified_execs: "modified t \<Longrightarrow> modified (execs t cs)"
  unfolding execs_def by (induction cs arbitrary: t) (simp_all add: modified_exec)

lemma modified_write: "is_write c \<Longrightarrow> modified (exec t c)"
  by (cases c) (simp_all add: get_def set_tx_def update_def delete_def Let_def)

lemma exec_read: "\<not> modified t \<Longrightarrow> \<not> is_write c \<Longrightarrow> exec t c = t"
  by (cases c) (simp_all add: get_def)

lemma execs_reads: "\<not> modified t \<Longrightarrow> \<not> list_ex is_write cs \<Longrightarrow> execs t cs = t"
  unfolding execs_def by (induction cs arbitrary: t) (simp_all add: exec_read)

lemma wf_set_tx: "wf_tx t \<Longrightarrow> wf_tx (set_tx t r d options)"
  by (simp add: wf_tx_def set_tx_def Let_def distinct_keys_assign)

lemma wf_exec: "wf_tx t \<Longrightarrow> wf_tx (exec t c)"
  by (cases c) (simp_all add: wf_set_tx, simp_all add: wf_tx_def get_def update_def delete_def Let_def distinct_keys_assign)

lemma wf_execs: "wf_tx t \<Longrightarrow> wf_tx (execs t cs)"
  unfolding execs_def by (induction cs arbitrary: t) (simp_all add: wf_exec)

lemma wf_new: "wf_tx new_MockTransaction"
  by (simp add: wf_tx_def new_MockTransaction_def)

lemma staged_assigned:
  "document_path p \<Longrightarrow>
     staged (t\<lparr>transactionData := assign p v (transactionData t)\<rparr>) p = value_of v"
  by (simp add: staged_def lookup_document_path map_of_assign document_path_own)

lemma staged_set_tx:
  "document_path (path r) \<Longrightarrow>
     staged (set_tx t r d options) (path r) =
       Data (if merge_requested options
             then updateInTransaction r (Data (spread (current t r) ++ d)) (UpdateData d) None
             else setInTransaction r d d options)"
  by (simp add: set_tx_def Let_def staged_def lookup_document_path map_of_assign
      document_path_own current_def value_of_def truthy_def spread_def
      split: option.splits)

lemma operation_set_tx:
  "document_path (path r) \<Longrightarrow>
     map_of (transactionOperation (set_tx t r d options)) (path r) =
       Some (if truthy (current t r) then Modified else Added)"
  by (simp add: set_tx_def Let_def staged_def map_of_assign document_path_own current_def
      value_of_def truthy_def split: option.splits)

lemma modified_exec_iff: "modified (exec t c) = (modified t \<or> is_write c)"
  by (cases c) (simp_all add: get_def set_tx_def update_def delete_def Let_def)

lemma modified_execs_iff: "modified (execs t cs) = (modified t \<or> list_ex is_write cs)"
  unfolding execs_def by (induction cs arbitrary: t) (auto simp: modified_exec_iff)

subsection \<open>Traces\<close>

lemma clean_Nil: "clean []"
  by (simp add: clean_def)

lemma clean_snoc: "clean (tr @ [ev]) = (clean tr \<and> thrown ev = None \<and> ev \<noteq> Rollback)"
  by (auto simp: clean_def)

lemma failed_snoc: "failed e (tr @ [ev]) = (clean tr \<and> thrown ev = Some e)"
  by (simp add: failed_def)

lemma tracedD:
  assumes "traced m" and "clean (snd s)" and "m s = (r, s')"
  shows "case r of Inl e \<Rightarrow> failed e (snd s') | Inr x \<Rightarrow> clean (snd s')"
proof -
  from assms(1) have "clean (snd s) \<longrightarrow>
      (case m s of (Inl e, s') \<Rightarrow> failed e (snd s') | (Inr x, s') \<Rightarrow> clean (snd s'))"
    unfolding traced_def by (rule spec)
  with assms(2,3) show ?thesis by simp
qed

lemma traced_return: "traced (\<lambda>s. (Inr x, s))"
  by (simp add: traced_def)

lemma traced_perform:
  fixes f :: "'w \<Rightarrow> (error + 'a) \<times> 'w" and ev :: "error + 'a \<Rightarrow> ('v, 'd, 'c) event"
  assumes "\<And>r. thrown (ev r) = raised r" and "\<And>r. ev r \<noteq> Rollback"
  shows "traced (perform f ev)"
  unfolding traced_def
proof (intro allI impI)
  fix s :: "('w, 'v, 'd, 'c) run"
  assume c: "clean (snd s)"
  obtain r w' where f: "f (fst s) = (r, w')" by (cases "f (fst s)")
  then have p: "perform f ev s = (r, (w', snd s @ [ev r]))" by (simp add: perform_def)
  show "case perform f ev s of (Inl e, s') \<Rightarrow> failed e (snd s') | (Inr x, s') \<Rightarrow> clean (snd s')"
    using c assms [of r]
    by (cases r) (simp_all add: p clean_snoc failed_snoc raised_def)
qed

lemma traced_and_then:
  fixes m :: "('w, 'v, 'd, 'c) run \<Rightarrow> (error + 'a) \<times> ('w, 'v, 'd, 'c) run"
  assumes "traced m" and "\<And>x. traced (k x)"
  shows "traced (and_then m k)"
  unfolding traced_def
proof (intro allI impI)
  fix s :: "('w, 'v, 'd, 'c) run"
  assume c: "clean (snd s)"
  obtain r s' where m: "m s = (r, s')" by (cases "m s")
  note d = tracedD [OF assms(1) c m]
  show "case and_then m k s of (Inl e, s') \<Rightarrow> failed e (snd s') | (Inr x, s') \<Rightarrow> clean (snd s')"
  proof (cases r)
    case (Inl e)
    with d m show ?thesis by (simp add: and_then_def)
  next
    case (Inr x)
    with d have c': "clean (snd s')" by simp
    obtain r2 s2 where k: "k x s' = (r2, s2)" by (cases "k x s'")
    from tracedD [OF assms(2) c' k] Inr m k show ?thesis
      by (simp add: and_then_def)
  qed
qed

lemma traced_commit_changes: "traced (commit_changes firestore t ops cc)"
proof (induction ops arbitrary: cc)
  case Nil
  have "commit_changes firestore t [] cc = (\<lambda>s. (Inr cc, s))" by (simp add: fun_eq_iff)
  then show ?case by (simp add: traced_return)
next
  case (Cons a ops)
  obtain p operation where a: "a = (p, operation)" by (cases a)
  have "commit_changes firestore t ((p, operation) # ops) cc =
     and_then (perform (doc firestore p) (Doc p)) (\<lambda>d.
     and_then (perform (commitChange firestore d operation (staged t p))
                       (CommitChange d operation (staged t p))) (\<lambda>documentChange.
     and_then (perform (\<lambda>w. (push cc (collectionPath p) documentChange, w))
                       (\<lambda>r. Push (collectionPath p) (map_sum id (\<lambda>x. ()) r)))
       (commit_changes firestore t ops)))"
    by (simp add: fun_eq_iff)
  moreover have "traced \<dots>"
    by (intro traced_and_then traced_perform Cons.IH) (simp_all add: raised_def split: sum.splits)
  ultimately show ?case by (simp add: a)
qed

lemma traced_fire_changes: "traced (fire_changes firestore chs)"
proof (induction chs)
  case Nil
  have "fire_changes firestore [] = (\<lambda>s. (Inr (), s))" by (simp add: fun_eq_iff)
  then show ?case by (simp add: traced_return)
next
  case (Cons document rest)
  have "fire_changes firestore (document # rest) =
     and_then (perform (fireDocumentChangeEvent firestore (doc_ref document) (type document)
                          (oldIndex document) False)
                       (FireDocumentChangeEvent (doc_ref document) (type document)
                          (oldIndex document) False))
       (\<lambda>u. fire_changes firestore rest)"
    by (simp add: fun_eq_iff)
  moreover have "traced \<dots>"
    by (intro traced_and_then traced_perform Cons.IH) simp_all
  ultimately show ?case by simp
qed

lemma traced_notify_collections: "traced (notify_collections firestore cs)"
proof (induction cs)
  case Nil
  have "notify_collections firestore [] = (\<lambda>s. (Inr (), s))" by (simp add: fun_eq_iff)
  then show ?case by (simp add: traced_return)
next
  case (Cons a rest)
  obtain collectionId documentChanges where a: "a = (collectionId, documentChanges)" by (cases a)
  have "notify_collections firestore ((collectionId, documentChanges) # rest) =
     and_then (fire_changes firestore documentChanges) (\<lambda>u.
     and_then (perform (collection firestore collectionId) (Collection collectionId)) (\<lambda>c.
     and_then (perform (fireBatchDocumentChange firestore c documentChanges)
                       (FireBatchDocumentChange c documentChanges)) (\<lambda>u.
     notify_collections firestore rest)))"
    by (simp add: fun_eq_iff)
  moreover have "traced \<dots>"
    by (intro traced_and_then traced_perform traced_fire_changes Cons.IH) simp_all
  ultimately show ?case by (simp add: a)
qed

lemma traced_commit_try: "traced (commit_try firestore t)"
proof -
  have "commit_try firestore t =
     and_then (commit_changes firestore t (for_in (transactionOperation t)) [])
       (\<lambda>collectionChanges. notify_collections firestore (for_in collectionChanges))"
    by (simp add: fun_eq_iff commit_try_def)
  then show ?thesis
    by (simp add: traced_and_then traced_commit_changes traced_notify_collections)
qed

lemma clean_no_rollback: "clean tr \<Longrightarrow> count_list tr Rollback = 0"
  by (induction tr) (auto simp: clean_def)

lemma clean_no_throw: "clean tr \<Longrightarrow> ev \<in> set tr \<Longrightarrow> thrown ev = None"
  by (auto simp: clean_def list_all_iff)

lemma failed_no_rollback:
  assumes "failed e tr"
  shows "count_list tr Rollback = 0"
proof -
  from assms obtain tr0 ev where tr: "tr = tr0 @ [ev]"
    by (metis failed_def append_butlast_last_id)
  with assms have "clean tr0" and "thrown ev = Some e" by (simp_all add: failed_snoc)
  then have "count_list tr0 Rollback = 0" and "ev \<noteq> Rollback"
    by (auto simp: clean_no_rollback)
  with tr show ?thesis by simp
qed

lemma failed_only_throw: "failed e tr \<Longrightarrow> ev \<in> set tr \<Longrightarrow> thrown ev = Some e' \<Longrightarrow> e' = e"
proof -
  assume f: "failed e tr" and m: "ev \<in> set tr" and t: "thrown ev = Some e'"
  from f have "tr = butlast tr @ [last tr]" by (simp add: failed_def)
  with m have "ev \<in> set (butlast tr) \<or> ev = last tr"
    by (metis Un_iff empty_iff empty_set set_ConsD set_append)
  then show ?thesis
  proof
    assume "ev \<in> set (butlast tr)"
    with f t show ?thesis by (auto simp: failed_def dest: clean_no_throw)
  next
    assume "ev = last tr"
    with f t show ?thesis by (simp add: failed_def)
  qed
qed

subsection \<open>A commit that succeeds, step by step\<close>

lemma and_then_Inr:
  assumes "and_then m k s = (Inr y, s'')"
  shows "\<exists>x s'. m s = (Inr x, s') \<and> k x s' = (Inr y, s'')"
  using assms by (auto simp: and_then_def split: prod.splits sum.splits)

lemma perform_Inr:
  assumes "perform f ev s = (Inr x, s')"
  shows "snd s' = snd s @ [ev (Inr x)] \<and> f (fst s) = (Inr x, fst s')"
  using assms by (auto simp: perform_def split: prod.splits)

lemma commit_changes_Cons_Inr:
  assumes "commit_changes firestore t ((p, operation) # rest) cc s = (Inr cc', s')"
  shows "\<exists>d ch cc1 w1. push cc (collectionPath p) ch = Inr cc1 \<and>
           commit_changes firestore t rest cc1 (w1, snd s @ committed t p operation d ch) =
             (Inr cc', s')"
proof -
  from and_then_Inr [OF assms [unfolded commit_changes.simps]] obtain d s1 where
    1: "perform (doc firestore p) (Doc p) s = (Inr d, s1)" and
    r1: "and_then (perform (commitChange firestore d operation (staged t p))
                       (CommitChange d operation (staged t p))) (\<lambda>documentChange.
          and_then (perform (\<lambda>w. (push cc (collectionPath p) documentChange, w))
                       (\<lambda>r. Push (collectionPath p) (map_sum id (\<lambda>x. ()) r)))
            (commit_changes firestore t rest)) s1 = (Inr cc', s')"
    by blast
  from and_then_Inr [OF r1] obtain ch s2 where
    2: "perform (commitChange firestore d operation (staged t p))
                       (CommitChange d operation (staged t p)) s1 = (Inr ch, s2)" and
    r2: "and_then (perform (\<lambda>w. (push cc (collectionPath p) ch, w))
                       (\<lambda>r. Push (collectionPath p) (map_sum id (\<lambda>x. ()) r)))
            (commit_changes firestore t rest) s2 = (Inr cc', s')"
    by blast
  from and_then_Inr [OF r2] obtain cc1 s3 where
    3: "perform (\<lambda>w. (push cc (collectionPath p) ch, w))
                       (\<lambda>r. Push (collectionPath p) (map_sum id (\<lambda>x. ()) r)) s2 = (Inr cc1, s3)" and
    r3: "commit_changes firestore t rest cc1 s3 = (Inr cc', s')"
    by blast
  from perform_Inr [OF 1] perform_Inr [OF 2] perform_Inr [OF 3]
  have "push cc (collectionPath p) ch = Inr cc1"
    and "snd s3 = snd s @ committed t p operation d ch"
    by (simp_all add: committed_def)
  with r3 show ?thesis by (metis prod.collapse)
qed

lemma fire_changes_Inr:
  "fire_changes firestore chs s = (Inr u, s') \<Longrightarrow> snd s' = snd s @ map fired chs"
proof (induction chs arbitrary: s)
  case Nil
  then show ?case by simp
next
  case (Cons ch chs)
  from and_then_Inr [OF Cons.prems [unfolded fire_changes.simps]] obtain s1 where
    1: "perform (fireDocumentChangeEvent firestore (doc_ref ch) (type ch) (oldIndex ch) False)
          (FireDocumentChangeEvent (doc_ref ch) (type ch) (oldIndex ch) False) s = (Inr (), s1)"
    and r: "fire_changes firestore chs s1 = (Inr u, s')"
    by auto
  from perform_Inr [OF 1] have "snd s1 = snd s @ [fired ch]"
    by (simp add: fired_def)
  with Cons.IH [OF r] show ?case by simp
qed

lemma notify_collections_Cons_Inr:
  assumes "notify_collections firestore ((c, chs) # rest) s = (Inr u, s')"
  shows "\<exists>k w1. notify_collections firestore rest (w1, snd s @ notified k c chs) = (Inr u, s')"
proof -
  from and_then_Inr [OF assms [unfolded notify_collections.simps]] obtain s1 where
    1: "fire_changes firestore chs s = (Inr (), s1)" and
    r1: "and_then (perform (collection firestore c) (Collection c)) (\<lambda>k.
         and_then (perform (fireBatchDocumentChange firestore k chs)
                       (FireBatchDocumentChange k chs)) (\<lambda>u.
         notify_collections firestore rest)) s1 = (Inr u, s')"
    by auto
  from and_then_Inr [OF r1] obtain k s2 where
    2: "perform (collection firestore c) (Collection c) s1 = (Inr k, s2)" and
    r2: "and_then (perform (fireBatchDocumentChange firestore k chs)
                       (FireBatchDocumentChange k chs)) (\<lambda>u.
         notify_collections firestore rest) s2 = (Inr u, s')"
    by blast
  from and_then_Inr [OF r2] obtain s3 where
    3: "perform (fireBatchDocumentChange firestore k chs)
                       (FireBatchDocumentChange k chs) s2 = (Inr (), s3)" and
    r3: "notify_collections firestore rest s3 = (Inr u, s')"
    by auto
  from fire_changes_Inr [OF 1] perform_Inr [OF 2] perform_Inr [OF 3]
  have "snd s3 = snd s @ notified k c chs"
    by (simp add: notified_def)
  with r3 show ?thesis by (metis prod.collapse)
qed

lemma keys_exec:
  "stages c \<Longrightarrow> CHR ''/'' \<in> set (path (ref_of c)) \<Longrightarrow>
     map fst (transactionOperation (exec t c)) =
       (if path (ref_of c) \<in> set (map fst (transactionOperation t))
        then map fst (transactionOperation t)
        else map fst (transactionOperation t) @ [path (ref_of c)])"
proof -
  assume st: "stages c" and "CHR ''/'' \<in> set (path (ref_of c))"
  then have "path (ref_of c) \<noteq> ''__proto__''"
    by (simp add: document_path_own document_path_def)
  with st show ?thesis
    by (cases c) (simp_all add: set_tx_def update_def delete_def Let_def keys_assign)
qed

lemma slash_not_index: "CHR ''/'' \<in> set p \<Longrightarrow> \<not> is_array_index p"
proof -
  assume "CHR ''/'' \<in> set p"
  moreover have "\<not> is_digit CHR ''/''" by (simp add: is_digit_def)
  ultimately have "\<not> list_all is_digit p" by (auto simp: list_all_iff)
  then show ?thesis by (simp add: is_array_index_def)
qed

lemma for_in_plain: "list_all (\<lambda>e. \<not> is_array_index (fst e)) obj \<Longrightarrow> for_in obj = obj"
  by (simp add: for_in_def list_all_iff)

lemma for_in_two:
  "k1 \<noteq> k2 \<Longrightarrow> for_in [(k1, a), (k2, b)] =
     (if is_array_index k2 \<and> (is_array_index k1 \<longrightarrow> decimal k2 < decimal k1)
      then [(k2, b), (k1, a)] else [(k1, a), (k2, b)])"
  by (auto simp: for_in_def)

lemma three_keys:
  "map fst xs = [a, b, c] \<Longrightarrow> \<exists>x y z. xs = [(a, x), (b, y), (c, z)]"
  by (auto simp: map_eq_Cons_conv)

lemma commit_order:
  fixes c1 c2 c3 :: "'v call" and firestore :: "('w, 'v, 'd, 'c) MockFirebaseFirestore"
  assumes st: "stages c1" "stages c2" "stages c3"
    and sl: "CHR ''/'' \<in> set (path (ref_of c1))" "CHR ''/'' \<in> set (path (ref_of c2))"
            "CHR ''/'' \<in> set (path (ref_of c3))"
    and col: "collectionPath (path (ref_of c1)) = k1" "collectionPath (path (ref_of c2)) = k2"
             "collectionPath (path (ref_of c3)) = k1"
    and ne: "k1 \<noteq> k2" "path (ref_of c1) \<noteq> path (ref_of c3)"
    and own: "k1 \<notin> set Object_prototype_keys" "k2 \<notin> set Object_prototype_keys"
    and run: "commit firestore (execs new_MockTransaction [c1, c2, c3]) w = (Inr (), w', tr)"
  shows "\<exists>o1 o2 o3 d1 d2 d3 ch1 ch2 ch3 h1 h2.
           transactionOperation (execs new_MockTransaction [c1, c2, c3]) =
             [(path (ref_of c1), o1), (path (ref_of c2), o2), (path (ref_of c3), o3)] \<and>
           tr = committed (execs new_MockTransaction [c1, c2, c3]) (path (ref_of c1)) o1 d1 ch1 @
                committed (execs new_MockTransaction [c1, c2, c3]) (path (ref_of c2)) o2 d2 ch2 @
                committed (execs new_MockTransaction [c1, c2, c3]) (path (ref_of c3)) o3 d3 ch3 @
                (if is_array_index k2 \<and> (is_array_index k1 \<longrightarrow> decimal k2 < decimal k1)
                 then notified h2 k2 [ch2] @ notified h1 k1 [ch1, ch3]
                 else notified h1 k1 [ch1, ch3] @ notified h2 k2 [ch2])"
proof -
  let ?t = "execs new_MockTransaction [c1, c2, c3] :: 'v MockTransaction"
  let ?p1 = "path (ref_of c1)" and ?p2 = "path (ref_of c2)" and ?p3 = "path (ref_of c3)"
  from col ne have ne2: "?p1 \<noteq> ?p2" "?p2 \<noteq> ?p3" by auto
  have "map fst (transactionOperation ?t) = [?p1, ?p2, ?p3]"
    using st sl ne ne2 by (simp add: execs_def keys_exec new_MockTransaction_def)
  from three_keys [OF this]
  obtain o1 o2 o3 where ops: "transactionOperation ?t = [(?p1, o1), (?p2, o2), (?p3, o3)]"
    by blast
  have fi: "for_in (transactionOperation ?t) = [(?p1, o1), (?p2, o2), (?p3, o3)]"
    unfolding ops using sl by (intro for_in_plain) (simp add: slash_not_index)
  from run have body: "commit_try firestore ?t (w, []) = (Inr (), w', tr)"
    by (auto simp: commit_def split: prod.splits sum.splits)
  from and_then_Inr [OF body [unfolded commit_try_def]] obtain cc s1 where
    loop1: "commit_changes firestore ?t [(?p1, o1), (?p2, o2), (?p3, o3)] [] (w, []) = (Inr cc, s1)"
    and loop2: "notify_collections firestore (for_in cc) s1 = (Inr (), w', tr)"
    unfolding fi by blast
  from commit_changes_Cons_Inr [OF loop1] obtain d1 ch1 cc1 w1 where
    p1: "push [] (collectionPath ?p1) ch1 = Inr cc1" and
    r1: "commit_changes firestore ?t [(?p2, o2), (?p3, o3)] cc1
           (w1, committed ?t ?p1 o1 d1 ch1) = (Inr cc, s1)"
    by auto
  from commit_changes_Cons_Inr [OF r1] obtain d2 ch2 cc2 w2 where
    p2: "push cc1 (collectionPath ?p2) ch2 = Inr cc2" and
    r2: "commit_changes firestore ?t [(?p3, o3)] cc2
           (w2, committed ?t ?p1 o1 d1 ch1 @ committed ?t ?p2 o2 d2 ch2) = (Inr cc, s1)"
    by auto
  from commit_changes_Cons_Inr [OF r2] obtain d3 ch3 cc3 w3 where
    p3: "push cc2 (collectionPath ?p3) ch3 = Inr cc3" and
    r3: "commit_changes firestore ?t [] cc3
           (w3, committed ?t ?p1 o1 d1 ch1 @ committed ?t ?p2 o2 d2 ch2 @
                committed ?t ?p3 o3 d3 ch3) = (Inr cc, s1)"
    by auto
  from own have np: "k1 \<noteq> ''__proto__''" "k2 \<noteq> ''__proto__''"
    by (auto simp: Object_prototype_keys_def)
  from p1 own col np have cc1: "cc1 = [(k1, [ch1])]"
    by (simp add: push_def lookup_def assign_def)
  from p2 own col ne np have cc2: "cc2 = [(k1, [ch1]), (k2, [ch2])]"
    by (simp add: push_def lookup_def assign_def cc1)
  from p3 own col ne np have cc3: "cc3 = [(k1, [ch1, ch3]), (k2, [ch2])]"
    by (simp add: push_def lookup_def assign_def cc2)
  from r3 have cc: "cc = cc3"
    and s1: "s1 = (w3, committed ?t ?p1 o1 d1 ch1 @ committed ?t ?p2 o2 d2 ch2 @
                committed ?t ?p3 o3 d3 ch3)"
    by simp_all
  let ?commits = "committed ?t ?p1 o1 d1 ch1 @ committed ?t ?p2 o2 d2 ch2 @
                committed ?t ?p3 o3 d3 ch3 :: ('v, 'd, 'c) event list"
  show ?thesis
  proof (cases "is_array_index k2 \<and> (is_array_index k1 \<longrightarrow> decimal k2 < decimal k1)")
    case True
    with ne(1) have "for_in cc = [(k2, [ch2]), (k1, [ch1, ch3])]"
      unfolding cc cc3 by (subst for_in_two) simp_all
    with loop2 have n: "notify_collections firestore [(k2, [ch2]), (k1, [ch1, ch3])] s1 = (Inr (), w', tr)"
      by simp
    from notify_collections_Cons_Inr [OF n] obtain h2 v1 where
      n1: "notify_collections firestore [(k1, [ch1, ch3])] (v1, snd s1 @ notified h2 k2 [ch2]) = (Inr (), w', tr)"
      by blast
    from notify_collections_Cons_Inr [OF n1] obtain h1 v2 where
      "notify_collections firestore [] (v2, snd s1 @ notified h2 k2 [ch2] @ notified h1 k1 [ch1, ch3]) = (Inr (), w', tr)"
      by auto
    then have "tr = ?commits @ notified h2 k2 [ch2] @ notified h1 k1 [ch1, ch3]"
      by (simp add: s1)
    with True ops have "transactionOperation ?t = [(?p1, o1), (?p2, o2), (?p3, o3)] \<and>
        tr = committed ?t ?p1 o1 d1 ch1 @ committed ?t ?p2 o2 d2 ch2 @
             committed ?t ?p3 o3 d3 ch3 @
             (if is_array_index k2 \<and> (is_array_index k1 \<longrightarrow> decimal k2 < decimal k1)
              then notified h2 k2 [ch2] @ notified h1 k1 [ch1, ch3]
              else notified h1 k1 [ch1, ch3] @ notified h2 k2 [ch2])"
      by simp
    then show ?thesis by blast
  next
    case False
    with ne(1) have "for_in cc = [(k1, [ch1, ch3]), (k2, [ch2])]"
      unfolding cc cc3 by (subst for_in_two) simp_all
    with loop2 have n: "notify_collections firestore [(k1, [ch1, ch3]), (k2, [ch2])] s1 = (Inr (), w', tr)"
      by simp
    from notify_collections_Cons_Inr [OF n] obtain h1 v1 where
      n1: "notify_collections firestore [(k2, [ch2])] (v1, snd s1 @ notified h1 k1 [ch1, ch3]) = (Inr (), w', tr)"
      by blast
    from notify_collections_Cons_Inr [OF n1] obtain h2 v2 where
      "notify_collections firestore [] (v2, snd s1 @ notified h1 k1 [ch1, ch3] @ notified h2 k2 [ch2]) = (Inr (), w', tr)"
      by auto
    then have "tr = ?commits @ notified h1 k1 [ch1, ch3] @ notified h2 k2 [ch2]"
      by (simp add: s1)
    with False ops have "transactionOperation ?t = [(?p1, o1), (?p2, o2), (?p3, o3)] \<and>
        tr = committed ?t ?p1 o1 d1 ch1 @ committed ?t ?p2 o2 d2 ch2 @
             committed ?t ?p3 o3 d3 ch3 @
             (if is_array_index k2 \<and> (is_array_index k1 \<longrightarrow> decimal k2 < decimal k1)
              then notified h2 k2 [ch2] @ notified h1 k1 [ch1, ch3]
              else notified h1 k1 [ch1, ch3] @ notified h2 k2 [ch2])"
      by auto
    then show ?thesis by blast
  qed
qed

subsection \<open>Running a commit on a given store\<close>

lemmas run_defs =
  commit_def commit_try_def execs_def delete_def set_tx_def update_def
  new_MockTransaction_def reference_def for_in_def and_then_def perform_def
  failing_store_def plain_store_def staged_def collectionPath_def substr_def push_def
  Object_prototype_keys_def rollback_def is_array_index_def is_digit_def
  stageAsSet_def stageAsUpdate_def merge_requested_def spread_def Let_def
  lookup_def assign_def value_of_def truthy_def current_def

text \<open>
  The hypotheses of \<open>commit_order\<close> hold on a store whose calls return: two documents
  of \<^verbatim>\<open>users\<close> around one of \<^verbatim>\<open>rooms\<close>.
\<close>

lemma commit_order_example:
  "commit plain_store
     (execs (new_MockTransaction :: int MockTransaction)
        [Delete (reference ''users/u1'' None), Delete (reference ''rooms/r1'' None),
         Delete (reference ''users/u2'' None)]) () =
   (Inr (), (),
    [Doc ''users/u1'' (Inr ''users/u1''),
     CommitChange ''users/u1'' Removed Absent (Inr (change_of ''users/u1'' Removed)),
     Push ''users'' (Inr ()),
     Doc ''rooms/r1'' (Inr ''rooms/r1''),
     CommitChange ''rooms/r1'' Removed Absent (Inr (change_of ''rooms/r1'' Removed)),
     Push ''rooms'' (Inr ()),
     Doc ''users/u2'' (Inr ''users/u2''),
     CommitChange ''users/u2'' Removed Absent (Inr (change_of ''users/u2'' Removed)),
     Push ''users'' (Inr ()),
     FireDocumentChangeEvent ''users/u1'' Removed (- 1) False (Inr ()),
     FireDocumentChangeEvent ''users/u2'' Removed (- 1) False (Inr ()),
     Collection ''users'' (Inr ''users''),
     FireBatchDocumentChange ''users''
       [change_of ''users/u1'' Removed, change_of ''users/u2'' Removed] (Inr ()),
     FireDocumentChangeEvent ''rooms/r1'' Removed (- 1) False (Inr ()),
     Collection ''rooms'' (Inr ''rooms''),
     FireBatchDocumentChange ''rooms'' [change_of ''rooms/r1'' Removed] (Inr ())])"
  by (simp add: run_defs change_of_def)

text \<open>There \<open>commit_order\<close> gives the trace back, \<^verbatim>\<open>users\<close> notified before \<^verbatim>\<open>rooms\<close>.\<close>

lemma commit_order_instance:
  "\<exists>o1 o2 o3 d1 d2 d3 ch1 ch2 ch3 h1 h2.
     transactionOperation
       (execs (new_MockTransaction :: int MockTransaction)
          [Delete (reference ''users/u1'' None), Delete (reference ''rooms/r1'' None),
           Delete (reference ''users/u2'' None)]) =
       [(''users/u1'', o1), (''rooms/r1'', o2), (''users/u2'', o3)] \<and>
     [Doc ''users/u1'' (Inr ''users/u1''),
      CommitChange ''users/u1'' Removed Absent (Inr (change_of ''users/u1'' Removed)),
      Push ''users'' (Inr ()),
      Doc ''rooms/r1'' (Inr ''rooms/r1''),
      CommitChange ''rooms/r1'' Removed Absent (Inr (change_of ''rooms/r1'' Removed)),
      Push ''rooms'' (Inr ()),
      Doc ''users/u2'' (Inr ''users/u2''),
      CommitChange ''users/u2'' Removed Absent (Inr (change_of ''users/u2'' Removed)),
      Push ''users'' (Inr ()),
      FireDocumentChangeEvent ''users/u1'' Removed (- 1) False (Inr ()),
      FireDocumentChangeEvent ''users/u2'' Removed (- 1) False (Inr ()),
      Collection ''users'' (Inr ''users''),
      FireBatchDocumentChange ''users''
        [change_of ''users/u1'' Removed, change_of ''users/u2'' Removed] (Inr ()),
      FireDocumentChangeEvent ''rooms/r1'' Removed (- 1) False (Inr ()),
      Collection ''rooms'' (Inr ''rooms''),
      FireBatchDocumentChange ''rooms'' [change_of ''rooms/r1'' Removed] (Inr ())] =
     committed (execs (new_MockTransaction :: int MockTransaction)
          [Delete (reference ''users/u1'' None), Delete (reference ''rooms/r1'' None),
           Delete (reference ''users/u2'' None)]) ''users/u1'' o1 d1 ch1 @
     committed (execs (new_MockTransaction :: int MockTransaction)
          [Delete (reference ''users/u1'' None), Delete (reference ''rooms/r1'' None),
           Delete (reference ''users/u2'' None)]) ''rooms/r1'' o2 d2 ch2 @
     committed (execs (new_MockTransaction :: int MockTransaction)
          [Delete (reference ''users/u1'' None), Delete (reference ''rooms/r1'' None),
           Delete (reference ''users/u2'' None)]) ''users/u2'' o3 d3 ch3 @
     notified h1 ''users'' [ch1, ch3] @ notified h2 ''rooms'' [ch2]"
proof -
  have idx: "\<not> is_array_index ''rooms''"
    by (simp add: is_array_index_def is_digit_def)
  show ?thesis
    using commit_order [where ?c1.0 = "Delete (reference ''users/u1'' None)"
        and ?c2.0 = "Delete (reference ''rooms/r1'' None)"
        and ?c3.0 = "Delete (reference ''users/u2'' None)"
        and ?k1.0 = "''users''" and ?k2.0 = "''rooms''", OF _ _ _ _ _ _ _ _ _ _ _ _ _
        commit_order_example]
    by (simp add: reference_def collectionPath_def substr_def Object_prototype_keys_def idx)
qed

section \<open>The claims\<close>

text \<open>
  C1. Staged writes to \<open>p1\<close> (collection \<open>C1\<close>), \<open>p2\<close> (collection \<open>C2\<close>) and \<open>p3\<close>
  (collection \<open>C1\<close>) are committed in that order, their changes are grouped under the
  string before the last slash, and \<open>C1\<close> is notified with the changes of \<open>p1\<close> and
  \<open>p3\<close>, \<open>C2\<close> with the change of \<open>p2\<close>. Lemma \<open>commit_order\<close> above proves this of every
  pair of collections whose paths name no property of \<^verbatim>\<open>Object.prototype\<close>. For a
  collection called \<^verbatim>\<open>constructor\<close> it fails: on a store whose every call returns,
  the commit of the first document is followed by a \<^verbatim>\<open>TypeError\<close> from
  \<^verbatim>\<open>changes.push\<close>, the other two paths are never committed, no collection is
  notified, and the promise is rejected after \<^verbatim>\<open>rollback\<close>.
\<close>

theorem commit_inherited_collection_name:
  "commit plain_store
     (execs (new_MockTransaction :: int MockTransaction)
        [Set (reference ''constructor/c1'' None) [''a'' \<mapsto> 1] None,
         Set (reference ''users/u1'' None) [''a'' \<mapsto> 2] None,
         Set (reference ''constructor/c2'' None) [''a'' \<mapsto> 3] None]) () =
   (Inl (TypeError ''changes.push is not a function''), (),
    [Doc ''constructor/c1'' (Inr ''constructor/c1''),
     CommitChange ''constructor/c1'' Added (Data [''a'' \<mapsto> 1])
       (Inr (change_of ''constructor/c1'' Added)),
     Push ''constructor'' (Inl (TypeError ''changes.push is not a function'')),
     Rollback])"
  by (simp add: run_defs change_of_def)

text \<open>
  C2, as the code has it. Once \<^verbatim>\<open>set\<close>, \<^verbatim>\<open>update\<close> or \<^verbatim>\<open>delete\<close> has been called on a
  transaction, every later \<^verbatim>\<open>get\<close>, on any reference and after any further calls,
  fails with the validation error, also when the call threw and staged nothing; on a
  new transaction on which none of the three has been called, \<^verbatim>\<open>get\<close> returns the data
  of the reference.
\<close>

theorem get_after_write:
  "(is_write c \<longrightarrow> fst (get (execs (exec t c) cs) r) = Inl read_error) \<and>
   (\<not> list_ex is_write cs \<longrightarrow> fst (get (execs new_MockTransaction cs) r) = Inr (data r))"
proof (intro conjI impI)
  assume "is_write c"
  then have "modified (execs (exec t c) cs)"
    by (simp add: modified_write modified_execs)
  then show "fst (get (execs (exec t c) cs) r) = Inl read_error"
    by (simp add: get_def read_error_def)
next
  assume "\<not> list_ex is_write cs"
  then have "execs new_MockTransaction cs = (new_MockTransaction :: 'a MockTransaction)"
    by (intro execs_reads) (simp_all add: new_MockTransaction_def)
  then show "fst (get (execs new_MockTransaction cs) r) = Inr (data r)"
    by (simp add: get_def new_MockTransaction_def)
qed

theorem get_after_write_witness:
  "is_write (Delete (reference ''users/u1'' None :: int MockDocumentReference)) \<and>
   fst (get (execs (exec new_MockTransaction (Delete (reference ''users/u1'' None)))
               [Get (reference ''users/u2'' None)])
          (reference ''users/u1'' None :: int MockDocumentReference)) = Inl read_error \<and>
   \<not> list_ex is_write [Get (reference ''users/u2'' (None :: int DocumentData option))] \<and>
   fst (get (execs new_MockTransaction [Get (reference ''users/u2'' None)])
          (reference ''users/u1'' (Some [''a'' \<mapsto> (1::int)]))) = Inr (Some [''a'' \<mapsto> 1])"
  using get_after_write [of "Delete (reference ''users/u1'' None :: int MockDocumentReference)"
      new_MockTransaction "[Get (reference ''users/u2'' None)]"
      "reference ''users/u1'' (Some [''a'' \<mapsto> (1::int)])"]
    get_after_write [of "Delete (reference ''users/u1'' None :: int MockDocumentReference)"
      new_MockTransaction "[Get (reference ''users/u2'' None)]"
      "reference ''users/u1'' None"]
  by (simp add: reference_def)

text \<open>
  C2 as stated fails where it lets \<^verbatim>\<open>get\<close> succeed whenever no write has been staged:
  \<^verbatim>\<open>update(ref, "fieldA", 5)\<close> on a new transaction throws and stages nothing, both
  tables stay empty, and the next \<^verbatim>\<open>get\<close> fails all the same.
\<close>

theorem get_after_write_counterexample:
  "transactionData
     (snd (update new_MockTransaction (reference ''users/u1'' (Some [''a'' \<mapsto> 1]))
             (FieldName ''fieldA'') [5 :: int])) = [] \<and>
   transactionOperation
     (snd (update new_MockTransaction (reference ''users/u1'' (Some [''a'' \<mapsto> 1]))
             (FieldName ''fieldA'') [5 :: int])) = [] \<and>
   fst (get (snd (update new_MockTransaction (reference ''users/u1'' (Some [''a'' \<mapsto> 1]))
                    (FieldName ''fieldA'') [5 :: int]))
          (reference ''users/u1'' (Some [''a'' \<mapsto> 1]))) = Inl read_error"
  by (simp add: update_def get_def new_MockTransaction_def read_error_def)

text \<open>
  C3, as the code has it. On a transaction reached by calls on document paths, after
  \<^verbatim>\<open>set(p, A)\<close> and then \<^verbatim>\<open>set(p, B)\<close> on a document path \<open>p\<close> there is one staged entry
  for \<open>p\<close>; its value is what the staging primitive of the reference returns for \<open>B\<close>;
  the first \<^verbatim>\<open>set\<close> stages \<^verbatim>\<open>added\<close> if the document had no current data (nothing
  truthy staged, nothing stored) and \<^verbatim>\<open>modified\<close> otherwise; and the second \<^verbatim>\<open>set\<close>
  stages \<^verbatim>\<open>modified\<close> whatever was there before the first, since it finds the value the
  first one staged.
\<close>

theorem second_set_kind:
  assumes "t = execs new_MockTransaction cs" and "list_all addressed cs"
    and "document_path (path r)" and "path r' = path r"
  shows "length (filter (\<lambda>e. fst e = path r)
           (transactionData (set_tx (set_tx t r a oa) r' b ob))) = 1 \<and>
         length (filter (\<lambda>e. fst e = path r)
           (transactionOperation (set_tx (set_tx t r a oa) r' b ob))) = 1 \<and>
         staged (set_tx (set_tx t r a oa) r' b ob) (path r) =
           Data (if merge_requested ob
                 then updateInTransaction r'
                        (Data (spread (staged (set_tx t r a oa) (path r)) ++ b))
                        (UpdateData b) None
                 else setInTransaction r' b b ob) \<and>
         map_of (transactionOperation (set_tx t r a oa)) (path r) =
           Some (if truthy (current t r) then Modified else Added) \<and>
         map_of (transactionOperation (set_tx (set_tx t r a oa) r' b ob)) (path r) =
           Some Modified"
proof -
  let ?t1 = "set_tx t r a oa"
  have dp: "document_path (path r')" and np: "path r \<noteq> ''__proto__''"
    using assms(3,4) by (simp_all add: document_path_own)
  have wf: "wf_tx ?t1" by (simp add: assms(1) wf_set_tx wf_execs wf_new)
  have s1: "truthy (staged ?t1 (path r))"
    by (simp add: staged_set_tx assms(3) truthy_def)
  then have cur: "current ?t1 r' = staged ?t1 (path r)"
    by (simp add: current_def assms(4))
  have c1: "length (filter (\<lambda>e. fst e = path r) (transactionData (set_tx ?t1 r' b ob))) = 1"
    using wf np assms(4) by (simp add: set_tx_def Let_def wf_tx_def count_key_assign)
  have c2: "length (filter (\<lambda>e. fst e = path r) (transactionOperation (set_tx ?t1 r' b ob))) = 1"
    using wf np assms(4) by (simp add: set_tx_def Let_def wf_tx_def count_key_assign)
  have v: "staged (set_tx ?t1 r' b ob) (path r) =
           Data (if merge_requested ob
                 then updateInTransaction r' (Data (spread (staged ?t1 (path r)) ++ b))
                        (UpdateData b) None
                 else setInTransaction r' b b ob)"
    using staged_set_tx [OF dp, of ?t1 b ob] by (simp add: cur assms(4))
  have k: "map_of (transactionOperation (set_tx ?t1 r' b ob)) (path r) = Some Modified"
    using operation_set_tx [OF dp, of ?t1 b ob] s1 by (simp add: cur assms(4))
  show ?thesis
    using c1 c2 v k operation_set_tx [OF assms(3), of t a oa] by simp
qed

theorem second_set_kind_witness:
  "list_all addressed [Get (reference ''users/u2'' (None :: int DocumentData option))] \<and>
   document_path (path (reference ''users/u1'' (None :: int DocumentData option))) \<and>
   staged (set_tx (set_tx (execs new_MockTransaction [Get (reference ''users/u2'' None)])
                     (reference ''users/u1'' None) [''x'' \<mapsto> 1] None)
             (reference ''users/u1'' None) [''x'' \<mapsto> 2 :: int] None) ''users/u1'' =
     Data [''x'' \<mapsto> 2] \<and>
   map_of (transactionOperation
            (set_tx (execs new_MockTransaction [Get (reference ''users/u2'' None)])
               (reference ''users/u1'' None) [''x'' \<mapsto> 1 :: int] None)) ''users/u1'' =
     Some Added \<and>
   map_of (transactionOperation
            (set_tx (set_tx (execs new_MockTransaction [Get (reference ''users/u2'' None)])
                       (reference ''users/u1'' None) [''x'' \<mapsto> 1] None)
               (reference ''users/u1'' None) [''x'' \<mapsto> 2 :: int] None)) ''users/u1'' =
     Some Modified"
proof -
  have a: "list_all addressed [Get (reference ''users/u2'' (None :: int DocumentData option))]"
    by (simp add: addressed_def reference_def document_path_def)
  have d: "document_path (path (reference ''users/u1'' (None :: int DocumentData option)))"
    by (simp add: reference_def document_path_def)
  have c: "\<not> truthy (current (execs new_MockTransaction [Get (reference ''users/u2'' None)])
                     (reference ''users/u1'' (None :: int DocumentData option)))"
    by (simp add: current_def staged_def lookup_def execs_def get_def new_MockTransaction_def
        reference_def truthy_def value_of_def Object_prototype_keys_def)
  have p: "path (reference ''users/u1'' (None :: int DocumentData option)) = ''users/u1''"
    by (simp add: reference_def)
  have v: "setInTransaction (reference ''users/u1'' (None :: int DocumentData option))
             [''x'' \<mapsto> 2] [''x'' \<mapsto> 2] None = [''x'' \<mapsto> 2]"
    by (simp add: reference_def stageAsSet_def merge_requested_def)
  show ?thesis
    using a d c
      second_set_kind [OF refl a d refl, of "[''x'' \<mapsto> 1]" None "[''x'' \<mapsto> 2]" None]
    by (simp add: p v merge_requested_def)
qed

text \<open>
  C3 as stated fails: nothing is stored or staged for \<^verbatim>\<open>users/u1\<close>, so a kind
  computed from the state before the first \<^verbatim>\<open>set\<close> would be \<^verbatim>\<open>added\<close>; after the
  second \<^verbatim>\<open>set\<close> the staged kind is not \<^verbatim>\<open>added\<close>.
\<close>

theorem second_set_kind_counterexample:
  "data (reference ''users/u1'' (None :: int DocumentData option)) = None \<and>
   staged (new_MockTransaction :: int MockTransaction) ''users/u1'' = Absent \<and>
   map_of (transactionOperation
            (set_tx (set_tx new_MockTransaction (reference ''users/u1'' None) [''x'' \<mapsto> 1] None)
               (reference ''users/u1'' None) [''x'' \<mapsto> 2 :: int] None)) ''users/u1'' \<noteq> Some Added"
  by (simp add: reference_def set_tx_def Let_def new_MockTransaction_def staged_def
      merge_requested_def lookup_def assign_def value_of_def truthy_def
      Object_prototype_keys_def)



text \<open>
  C5. On a transaction reached by calls on document paths, \<^verbatim>\<open>delete(p)\<close> on a document
  path \<open>p\<close> writes \<^verbatim>\<open>undefined\<close> as the staged value of \<open>p\<close> and \<^verbatim>\<open>removed\<close> as its kind,
  whatever was staged for \<open>p\<close>, and leaves the other paths as they were; \<open>p\<close> has one
  entry in each table; the transaction it returns is the one it was called on, now
  marked as written.
\<close>

theorem delete_stages_removed:
  assumes "t = execs new_MockTransaction cs" and "list_all addressed cs"
    and "document_path (path r)"
  shows "map_of (transactionData (delete t r)) =
           (map_of (transactionData t))(path r \<mapsto> None) \<and>
         map_of (transactionOperation (delete t r)) =
           (map_of (transactionOperation t))(path r \<mapsto> Removed) \<and>
         length (filter (\<lambda>e. fst e = path r) (transactionData (delete t r))) = 1 \<and>
         length (filter (\<lambda>e. fst e = path r) (transactionOperation (delete t r))) = 1 \<and>
         staged (delete t r) (path r) = Absent \<and>
         modified (delete t r)"
proof -
  have wf: "wf_tx t"
    by (simp add: assms(1) wf_execs wf_new)
  have np: "path r \<noteq> ''__proto__''"
    using assms(3) by (simp add: document_path_own)
  show ?thesis
    using wf np assms(3)
    by (simp add: delete_def Let_def map_of_assign count_key_assign wf_tx_def staged_def
        lookup_document_path value_of_def)
qed

theorem delete_stages_removed_witness:
  "list_all addressed
     [Set (reference ''users/u1'' None) [''a'' \<mapsto> 1 :: int] None] \<and>
   document_path (path (reference ''users/u1'' (None :: int DocumentData option))) \<and>
   staged (execs new_MockTransaction
             [Set (reference ''users/u1'' None) [''a'' \<mapsto> 1 :: int] None]) ''users/u1'' =
     Data [''a'' \<mapsto> 1] \<and>
   staged (delete (execs new_MockTransaction
                     [Set (reference ''users/u1'' None) [''a'' \<mapsto> 1 :: int] None])
             (reference ''users/u1'' None)) ''users/u1'' = Absent \<and>
   map_of (transactionOperation
     (delete (execs new_MockTransaction
                [Set (reference ''users/u1'' None) [''a'' \<mapsto> 1 :: int] None])
        (reference ''users/u1'' None))) ''users/u1'' = Some Removed \<and>
   length (filter (\<lambda>e. fst e = ''users/u1'')
     (transactionData
        (delete (execs new_MockTransaction
                   [Set (reference ''users/u1'' None) [''a'' \<mapsto> 1 :: int] None])
           (reference ''users/u1'' None)))) = 1"
proof -
  have a: "list_all addressed
     [Set (reference ''users/u1'' None) [''a'' \<mapsto> 1 :: int] None]"
    by (simp add: addressed_def reference_def document_path_def)
  have d: "document_path (path (reference ''users/u1'' (None :: int DocumentData option)))"
    by (simp add: reference_def document_path_def)
  have s: "staged (execs new_MockTransaction
             [Set (reference ''users/u1'' None) [''a'' \<mapsto> 1 :: int] None]) ''users/u1'' =
     Data [''a'' \<mapsto> 1]"
    by (simp add: run_defs)
  show ?thesis
    using a d s delete_stages_removed [OF refl a d] by (simp add: reference_def)
qed

text \<open>
  C6. If a step of \<^verbatim>\<open>commit\<close> throws, the promise is rejected with that very error, the
  throwing step is the last one before the one call of \<^verbatim>\<open>rollback\<close>, and every step
  before it returned; the commit of a staged document is one such step. If the promise
  resolves, it resolves with no value, no step threw and \<^verbatim>\<open>rollback\<close> was not called.
\<close>

theorem commit_rolls_back_once:
  assumes "commit firestore t w = (r, w', tr)"
  shows "(\<forall>e. r = Inl e \<longrightarrow>
            failed e (butlast tr) \<and> last tr = Rollback \<and> count_list tr Rollback = 1) \<and>
         (\<forall>ev e. ev \<in> set tr \<and> thrown ev = Some e \<longrightarrow>
            r = Inl e \<and> count_list tr Rollback = 1) \<and>
         (r = Inr () \<longrightarrow> clean tr)"
proof -
  obtain r0 w0 tr0 where body: "commit_try firestore t (w, []) = (r0, w0, tr0)"
    by (cases "commit_try firestore t (w, [])") auto
  have tr: "case r0 of Inl e \<Rightarrow> failed e tr0 | Inr x \<Rightarrow> clean tr0"
    using tracedD [OF traced_commit_try _ body] by (cases r0) (simp_all add: clean_Nil)
  show ?thesis
  proof (cases r0)
    case (Inl e0)
    with body assms have res: "r = Inl e0" "tr = tr0 @ [Rollback]"
      by (simp_all add: commit_def rollback_def)
    from Inl tr have f: "failed e0 tr0" by simp
    have one: "count_list tr Rollback = 1"
      using res f by (simp add: failed_no_rollback)
    have "e = e0" if "ev \<in> set tr" "thrown ev = Some e" for ev e
    proof -
      from that res have "ev \<in> set tr0" by auto
      with f that show ?thesis by (auto dest: failed_only_throw)
    qed
    with res f one show ?thesis by auto
  next
    case (Inr u)
    with body assms have res: "r = Inr ()" "tr = tr0"
      by (simp_all add: commit_def)
    from Inr tr have "clean tr0" by simp
    with res show ?thesis by (auto dest: clean_no_throw)
  qed
qed

theorem commit_rolls_back_once_witness:
  "commit (failing_store ''users/u2'' (Error ''unavailable''))
     (execs (new_MockTransaction :: int MockTransaction)
        [Delete (reference ''users/u1'' None), Delete (reference ''users/u2'' None)]) () =
   (Inl (Error ''unavailable''), (),
    [Doc ''users/u1'' (Inr ''users/u1''),
     CommitChange ''users/u1'' Removed Absent (Inr (change_of ''users/u1'' Removed)),
     Push ''users'' (Inr ()),
     Doc ''users/u2'' (Inr ''users/u2''),
     CommitChange ''users/u2'' Removed Absent (Inl (Error ''unavailable'')),
     Rollback]) \<and>
   failed (Error ''unavailable'')
     [Doc ''users/u1'' (Inr ''users/u1''),
      CommitChange ''users/u1'' Removed Absent (Inr (change_of ''users/u1'' Removed)),
      Push ''users'' (Inr ()),
      Doc ''users/u2'' (Inr ''users/u2''),
      CommitChange ''users/u2'' Removed (Absent :: int any)
        (Inl (Error ''unavailable'')) :: (int, string, string) event] \<and>
   commit plain_store
     (execs (new_MockTransaction :: int MockTransaction)
        [Delete (reference ''users/u1'' None)]) () =
   (Inr (), (),
    [Doc ''users/u1'' (Inr ''users/u1''),
     CommitChange ''users/u1'' Removed Absent (Inr (change_of ''users/u1'' Removed)),
     Push ''users'' (Inr ()),
     FireDocumentChangeEvent ''users/u1'' Removed (- 1) False (Inr ()),
     Collection ''users'' (Inr ''users''),
     FireBatchDocumentChange ''users'' [change_of ''users/u1'' Removed] (Inr ())]) \<and>
   clean
     [Doc ''users/u1'' (Inr ''users/u1''),
      CommitChange ''users/u1'' Removed (Absent :: int any)
        (Inr (change_of ''users/u1'' Removed)),
      Push ''users'' (Inr ()),
      FireDocumentChangeEvent ''users/u1'' Removed (- 1) False (Inr ()),
      Collection ''users'' (Inr ''users''),
      FireBatchDocumentChange ''users'' [change_of ''users/u1'' Removed] (Inr ())
        :: (int, string, string) event]"
proof -
  have a: "commit (failing_store ''users/u2'' (Error ''unavailable''))
     (execs (new_MockTransaction :: int MockTransaction)
        [Delete (reference ''users/u1'' None), Delete (reference ''users/u2'' None)]) () =
   (Inl (Error ''unavailable''), (),
    [Doc ''users/u1'' (Inr ''users/u1''),
     CommitChange ''users/u1'' Removed Absent (Inr (change_of ''users/u1'' Removed)),
     Push ''users'' (Inr ()),
     Doc ''users/u2'' (Inr ''users/u2''),
     CommitChange ''users/u2'' Removed Absent (Inl (Error ''unavailable'')),
     Rollback])"
    by (simp add: run_defs change_of_def)
  have b: "commit plain_store
     (execs (new_MockTransaction :: int MockTransaction)
        [Delete (reference ''users/u1'' None)]) () =
   (Inr (), (),
    [Doc ''users/u1'' (Inr ''users/u1''),
     CommitChange ''users/u1'' Removed Absent (Inr (change_of ''users/u1'' Removed)),
     Push ''users'' (Inr ()),
     FireDocumentChangeEvent ''users/u1'' Removed (- 1) False (Inr ()),
     Collection ''users'' (Inr ''users''),
     FireBatchDocumentChange ''users'' [change_of ''users/u1'' Removed] (Inr ())])"
    by (simp add: run_defs change_of_def)
  show ?thesis
    using commit_rolls_back_once [OF a] commit_rolls_back_once [OF b] a b by simp
qed

text \<open>
  C7. \<^verbatim>\<open>update\<close> with a first data argument that is not an object, such as
  \<^verbatim>\<open>update(ref, "fieldA", 5)\<close>, throws \<^verbatim>\<open>NotImplementedYet\<close> and leaves both staging
  tables as they were.
\<close>

theorem update_field_form:
  "typeof a \<noteq> T_object \<Longrightarrow>
     fst (update t r a mfv) = Inl (NotImplementedYet ''MockTransaction.get'') \<and>
     transactionData (snd (update t r a mfv)) = transactionData t \<and>
     transactionOperation (snd (update t r a mfv)) = transactionOperation t"
  by (simp add: update_def)

theorem update_field_form_witness:
  "typeof (FieldName ''fieldA'' :: int dataOrField) \<noteq> T_object \<and>
   fst (update new_MockTransaction (reference ''users/u1'' None) (FieldName ''fieldA'') [5 :: int]) =
     Inl (NotImplementedYet ''MockTransaction.get'') \<and>
   transactionData
     (snd (update new_MockTransaction (reference ''users/u1'' None) (FieldName ''fieldA'')
             [5 :: int])) = [] \<and>
   transactionOperation
     (snd (update new_MockTransaction (reference ''users/u1'' None) (FieldName ''fieldA'')
             [5 :: int])) = []"
  using update_field_form [of "FieldName ''fieldA'' :: int dataOrField" new_MockTransaction
      "reference ''users/u1'' None" "[5]"]
  by (simp add: new_MockTransaction_def)

text \<open>
  C8, as the code has it. \<^verbatim>\<open>modified\<close> is set exactly when \<^verbatim>\<open>set\<close>, \<^verbatim>\<open>update\<close> or
  \<^verbatim>\<open>delete\<close> has been called. On a transaction where it is not set, \<^verbatim>\<open>get\<close> returns the
  data of the reference and the transaction as it was. Whatever the transaction holds,
  \<^verbatim>\<open>get\<close> leaves it as it was, and a value it returns is the data of the reference,
  never a staged one.
\<close>

theorem get_frame:
  "(\<not> modified t \<longrightarrow> get t r = (Inr (data r), t)) \<and> snd (get t r) = t \<and>
   (\<forall>x. fst (get t r) = Inr x \<longrightarrow> x = data r) \<and>
   modified (execs new_MockTransaction cs) = list_ex is_write cs"
  by (simp add: get_def modified_execs_iff new_MockTransaction_def)

theorem get_frame_witness:
  "\<not> modified (new_MockTransaction :: int MockTransaction) \<and>
   get new_MockTransaction (reference ''users/u1'' (Some [''a'' \<mapsto> 1 :: int])) =
     (Inr (Some [''a'' \<mapsto> 1]), new_MockTransaction) \<and>
   fst (get new_MockTransaction (reference ''users/u1'' (Some [''a'' \<mapsto> 1 :: int]))) =
     Inr (Some [''a'' \<mapsto> 1])"
  using get_frame [of new_MockTransaction "reference ''users/u1'' (Some [''a'' \<mapsto> 1 :: int])"
      "[]"]
  by (auto simp: new_MockTransaction_def reference_def)

text \<open>
  C8 as stated fails where it lets \<^verbatim>\<open>get\<close> return the snapshot whenever no write has
  been staged: after \<^verbatim>\<open>update(ref)\<close> with no data argument, which throws, both tables
  are empty and \<^verbatim>\<open>get\<close> does not return the data of the reference.
\<close>

theorem get_frame_counterexample:
  "transactionData (exec new_MockTransaction
     (Update (reference ''users/u1'' (Some [''a'' \<mapsto> 1 :: int])) Undefined [])) = [] \<and>
   transactionOperation (exec new_MockTransaction
     (Update (reference ''users/u1'' (Some [''a'' \<mapsto> 1 :: int])) Undefined [])) = [] \<and>
   get (exec new_MockTransaction
          (Update (reference ''users/u1'' (Some [''a'' \<mapsto> 1 :: int])) Undefined []))
     (reference ''users/u1'' (Some [''a'' \<mapsto> 1])) \<noteq>
   (Inr (data (reference ''users/u1'' (Some [''a'' \<mapsto> 1]))),
    exec new_MockTransaction
      (Update (reference ''users/u1'' (Some [''a'' \<mapsto> 1 :: int])) Undefined []))"
  by (simp add: update_def get_def new_MockTransaction_def)

text \<open>
  C9. \<^verbatim>\<open>update\<close> with a first data argument that is not an object sets \<^verbatim>\<open>modified\<close>
  before it throws: the transaction it leaves differs from the one it was given in that
  flag alone, and every later \<^verbatim>\<open>get\<close> on it fails with the validation error.
\<close>

theorem update_field_form_blocks_reads:
  "typeof a \<noteq> T_object \<Longrightarrow>
     update t r a mfv =
       (Inl (NotImplementedYet ''MockTransaction.get''), t\<lparr>modified := True\<rparr>) \<and>
     fst (get (execs (snd (update t r a mfv)) cs) r') = Inl read_error"
proof -
  assume a: "typeof a \<noteq> T_object"
  then have u: "update t r a mfv =
      (Inl (NotImplementedYet ''MockTransaction.get''), t\<lparr>modified := True\<rparr>)"
    by (simp add: update_def)
  have "modified (execs (t\<lparr>modified := True\<rparr>) cs)"
    by (rule modified_execs) simp
  with u show ?thesis by (simp add: get_def read_error_def)
qed

theorem update_field_form_blocks_reads_witness:
  "typeof (Undefined :: int dataOrField) \<noteq> T_object \<and>
   update new_MockTransaction (reference ''users/u1'' None) (Undefined :: int dataOrField) [] =
     (Inl (NotImplementedYet ''MockTransaction.get''), new_MockTransaction\<lparr>modified := True\<rparr>) \<and>
   fst (get (execs (snd (update new_MockTransaction (reference ''users/u1'' None)
                           (Undefined :: int dataOrField) [])) [])
          (reference ''users/u2'' (Some [''a'' \<mapsto> 1]))) = Inl read_error"
  using update_field_form_blocks_reads [of "Undefined :: int dataOrField" new_MockTransaction
      "reference ''users/u1'' None" "[]" "[]" "reference ''users/u2'' (Some [''a'' \<mapsto> 1])"]
  by auto

text \<open>
  C10. On a transaction reached by calls on document paths, \<^verbatim>\<open>set(p, data)\<close> after
  \<^verbatim>\<open>delete(p)\<close> on a document path \<open>p\<close> reads the staged \<^verbatim>\<open>undefined\<close> as no staged value
  and classifies by the data of the reference: \<^verbatim>\<open>modified\<close> if the reference has data,
  \<^verbatim>\<open>added\<close> if it has none. The value it stages is built on that data too.
\<close>

theorem set_after_delete:
  assumes "t = execs new_MockTransaction cs" and "list_all addressed cs"
    and "document_path (path r)" and "path r' = path r"
  shows "staged (delete t r) (path r) = Absent \<and>
         map_of (transactionOperation (set_tx (delete t r) r' d options)) (path r) =
           Some (if data r' = None then Added else Modified) \<and>
         staged (set_tx (delete t r) r' d options) (path r) =
           Data (if merge_requested options
                 then updateInTransaction r' (Data (spread (value_of (data r')) ++ d))
                        (UpdateData d) None
                 else setInTransaction r' d d options)"
proof -
  have dp: "document_path (path r')" and np: "path r \<noteq> ''__proto__''"
    using assms(3,4) by (simp_all add: document_path_own)
  have s: "staged (delete t r) (path r) = Absent"
    using assms(3) np
    by (simp add: delete_def Let_def staged_def lookup_document_path map_of_assign
        value_of_def)
  then have cur: "current (delete t r) r' = value_of (data r')"
    by (simp add: current_def assms(4) truthy_def)
  have v: "truthy (value_of (data r')) = (data r' \<noteq> None)"
    by (simp add: truthy_def value_of_def split: option.splits)
  show ?thesis
    using s operation_set_tx [OF dp, of "delete t r" d options]
      staged_set_tx [OF dp, of "delete t r" d options]
    by (auto simp: cur v assms(4))
qed

theorem set_after_delete_witness:
  "list_all addressed ([] :: int call list) \<and>
   document_path (path (reference ''users/u1'' (Some [''a'' \<mapsto> 1 :: int]))) \<and>
   path (reference ''users/u1'' (Some [''a'' \<mapsto> 1 :: int])) =
     path (reference ''users/u1'' (Some [''a'' \<mapsto> 1 :: int])) \<and>
   map_of (transactionOperation
     (set_tx (delete (execs new_MockTransaction [])
                (reference ''users/u1'' (Some [''a'' \<mapsto> 1 :: int])))
        (reference ''users/u1'' (Some [''a'' \<mapsto> 1])) [''a'' \<mapsto> 2] None)) ''users/u1'' =
     Some Modified \<and>
   map_of (transactionOperation
     (set_tx (delete (execs new_MockTransaction [])
                (reference ''users/u1'' (None :: int DocumentData option)))
        (reference ''users/u1'' None) [''a'' \<mapsto> 2] None)) ''users/u1'' =
     Some Added"
proof -
  have a: "list_all addressed ([] :: int call list)" by simp
  have d: "document_path (path (reference ''users/u1'' (x :: int DocumentData option)))" for x
    by (simp add: reference_def document_path_def)
  show ?thesis
    using a d [of "Some [''a'' \<mapsto> 1]"]
      set_after_delete [OF refl a d [of "Some [''a'' \<mapsto> 1]"] refl, of "[''a'' \<mapsto> 2]" None]
      set_after_delete [OF refl a d [of None] refl, of "[''a'' \<mapsto> 2]" None]
    by (simp add: reference_def)
qed

end
